theory Spec2Isabelle
  imports Main
begin

section \<open>Google Pay UPI intent flow (gpay.js)\<close>

text \<open>
  The script is event driven: a click handler, promise reactions and one timer callback
  write to two DOM elements. The page is a record, every function of the script is a
  function on that record, and the browser (the PaymentRequest object, the timer, the
  order in which promise reactions run) is an explicit event loop whose events are the
  things the browser decides: a click, a promise settling, the timer coming due.
  Calls to the console are not modelled: nothing reads what they print. The note written
  at page load when \<^verbatim>\<open>isGPaySupported()\<close> is false is left out as well: it precedes
  every click and no property below is about it.
\<close>

subsection \<open>Strings of the JavaScript runtime\<close>

text \<open>
  \<^verbatim>\<open>'TXN' + Date.now()\<close> converts a number to a string. \<^verbatim>\<open>Date.now()\<close> is a
  non-negative integer below \<open>10^21\<close>, for which the conversion is the decimal numeral
  without leading zeros.
\<close>

definition digit_char :: "nat \<Rightarrow> char" where
  "digit_char d = char_of (48 + d)"

fun ToString :: "nat \<Rightarrow> string" where
  "ToString n = (if n < 10 then [digit_char n] else ToString (n div 10) @ [digit_char (n mod 10)])"

declare ToString.simps [simp del]

text \<open>The value a decimal numeral denotes; used to show that \<open>ToString\<close> loses nothing.\<close>

definition digit_value :: "char \<Rightarrow> nat" where
  "digit_value c = of_char c - 48"

definition decimal_value :: "string \<Rightarrow> nat" where
  "decimal_value s = foldl (\<lambda>a c. 10 * a + digit_value c) 0 s"

text \<open>
  \<^verbatim>\<open>encodeURIComponent\<close> (ECMAScript, Encode with the unreserved set of URI components):
  letters, digits and \<^verbatim>\<open>- _ . ! ~ * ' ( )\<close> are kept, every other byte of the UTF-8 form
  becomes \<^verbatim>\<open>%XX\<close> with upper-case hexadecimal digits. A \<open>string\<close> here is the UTF-8 byte
  sequence.
\<close>

definition uriUnescaped :: "char \<Rightarrow> bool" where
  "uriUnescaped c =
     (let n = (of_char c :: nat) in
        (65 \<le> n \<and> n \<le> 90) \<or> (97 \<le> n \<and> n \<le> 122) \<or> (48 \<le> n \<and> n \<le> 57) \<or>
        n = 45 \<or> n = 95 \<or> n = 46 \<or> n = 33 \<or> n = 126 \<or> n = 42 \<or> n = 39 \<or> n = 40 \<or> n = 41)"

definition hexDigit :: "nat \<Rightarrow> char" where
  "hexDigit k = (if k < 10 then char_of (48 + k) else char_of (55 + k))"

definition percentEncode :: "char \<Rightarrow> string" where
  "percentEncode c =
     (if uriUnescaped c then [c]
      else [CHR ''%'', hexDigit ((of_char c :: nat) div 16), hexDigit ((of_char c :: nat) mod 16)])"

definition encodeURIComponent :: "string \<Rightarrow> string" where
  "encodeURIComponent s = concat (map percentEncode s)"

subsection \<open>Configuration\<close>

record merchant_config =
  pa :: string
  pn :: string
  mc :: string
  tn :: string

definition AMOUNT :: string where
  "AMOUNT = ''1.00''"

definition MERCHANT_CONFIG :: merchant_config where
  "MERCHANT_CONFIG = \<lparr> pa = ''9110190178@okbizaxis'', pn = ''Ms. Priya Kumari'',
                        mc = ''5977'', tn = ''Payment'' \<rparr>"

definition generateTransactionReferenceID :: "nat \<Rightarrow> string" where
  \<comment> \<open>the argument is what \<^verbatim>\<open>Date.now()\<close> returns at the call\<close>
  "generateTransactionReferenceID now = ''TXN'' @ ToString now"

subsection \<open>Values handed to the script by the browser\<close>

datatype js_error = JsError (name: string) (message: string)

record PaymentResponse =
  requestId :: nat  \<comment> \<open>the request the response answers\<close>
  response_details :: string  \<comment> \<open>\<^verbatim>\<open>paymentResponse.details\<close>, which the script only logs\<close>

datatype jsval = Undefined | Boolean bool | Response PaymentResponse

fun truthy :: "jsval \<Rightarrow> bool" where
  "truthy Undefined = False"
| "truthy (Boolean b) = b"
| "truthy (Response p) = True"

text \<open>The arguments of \<^verbatim>\<open>new PaymentRequest(supportedInstruments, details)\<close>.\<close>

record instrument_data = merchant_config +
  tr :: string
  url :: string

record instrument =
  supportedMethods :: "string list"
  data :: instrument_data

record order_details =
  label :: string
  currency :: string
  amount_value :: string

text \<open>
  What is fixed by the browser and not by the script: whether \<^verbatim>\<open>globalThis.PaymentRequest\<close>
  exists, and whether the constructor throws on the arguments it is given.
\<close>

record browser =
  PaymentRequest_defined :: bool
  construct :: "instrument list \<Rightarrow> order_details \<Rightarrow> js_error option"

subsection \<open>The page and its payment requests\<close>

datatype promise = Unrequested | Pending | Resolved | Rejected
  \<comment> \<open>not obtained by the script yet, obtained and unsettled, fulfilled, rejected\<close>

text \<open>
  One entry per PaymentRequest object the script has constructed: the promises the script
  obtained from it, and \<^verbatim>\<open>paymentTimeout\<close>, the timer of the \<^verbatim>\<open>showPaymentUI\<close> call
  for it (\<open>Some d\<close>: armed and due at time \<open>d\<close>; \<open>None\<close>: never set, cleared or fired).
\<close>

record attempt =
  instruments :: "instrument list"
  order :: order_details
  probe :: promise         \<comment> \<open>\<^verbatim>\<open>request.canMakePayment()\<close>\<close>
  presentation :: promise  \<comment> \<open>\<^verbatim>\<open>request.show()\<close>\<close>
  abortion :: promise      \<comment> \<open>\<^verbatim>\<open>request.abort()\<close>\<close>
  completion :: promise    \<comment> \<open>\<^verbatim>\<open>paymentResponse.complete('success')\<close>\<close>
  paymentTimeout :: "nat option"

datatype dom_write =
    StatusWrite string string   \<comment> \<open>\<^verbatim>\<open>statusMessage.textContent\<close> and \<^verbatim>\<open>.className\<close>\<close>
  | ButtonWrite bool            \<comment> \<open>\<^verbatim>\<open>gpayButton.disabled\<close>\<close>
  | Navigate string             \<comment> \<open>\<^verbatim>\<open>location.href\<close>\<close>

record page =
  disabled :: bool       \<comment> \<open>\<^verbatim>\<open>gpayButton.disabled\<close>\<close>
  textContent :: string  \<comment> \<open>\<^verbatim>\<open>statusMessage.textContent\<close>\<close>
  className :: string    \<comment> \<open>\<^verbatim>\<open>statusMessage.className\<close>\<close>
  href :: string         \<comment> \<open>the last value assigned to \<^verbatim>\<open>location.href\<close>\<close>
  writes :: "dom_write list"  \<comment> \<open>every assignment to the three above, oldest first\<close>
  attempts :: "attempt list"

definition initial_page :: page where
  "initial_page = \<lparr> disabled = False, textContent = [], className = [], href = [],
                     writes = [], attempts = [] \<rparr>"

definition on_attempt :: "nat \<Rightarrow> (attempt \<Rightarrow> attempt) \<Rightarrow> page \<Rightarrow> page" where
  "on_attempt r f s =
     (if r < length (attempts s) then s\<lparr>attempts := (attempts s)[r := f (attempts s ! r)]\<rparr> else s)"

definition pending :: "(attempt \<Rightarrow> promise) \<Rightarrow> nat \<Rightarrow> page \<Rightarrow> bool" where
  "pending p r s = (r < length (attempts s) \<and> p (attempts s ! r) = Pending)"

subsection \<open>The functions of the script\<close>

definition showStatus :: "string \<Rightarrow> string \<Rightarrow> page \<Rightarrow> page" where
  "showStatus msg ty s =
     s\<lparr>textContent := msg, className := ty, writes := writes s @ [StatusWrite msg ty]\<rparr>"

definition set_disabled :: "bool \<Rightarrow> page \<Rightarrow> page" where
  \<comment> \<open>\<^verbatim>\<open>gpayButton.disabled = b\<close>\<close>
  "set_disabled b s = s\<lparr>disabled := b, writes := writes s @ [ButtonWrite b]\<rparr>"

definition clearTimeout :: "nat \<Rightarrow> page \<Rightarrow> page" where
  \<comment> \<open>\<^verbatim>\<open>globalThis.clearTimeout(paymentTimeout)\<close> in the closure of request \<open>r\<close>\<close>
  "clearTimeout r s = on_attempt r (\<lambda>a. a\<lparr>paymentTimeout := None\<rparr>) s"

definition handleNotReadyToPay :: "nat \<Rightarrow> page \<Rightarrow> page" where
  "handleNotReadyToPay now s =
     (let deepLink = ''gpay://upi/pay?pa='' @ encodeURIComponent (pa MERCHANT_CONFIG)
                     @ ''&pn='' @ encodeURIComponent (pn MERCHANT_CONFIG)
                     @ ''&am='' @ AMOUNT @ ''&cu=INR&tr='' @ generateTransactionReferenceID now
      in s\<lparr>href := deepLink, writes := writes s @ [Navigate deepLink]\<rparr>)"

definition timeout_delay :: nat where
  "timeout_delay = 20 * 60 * 1000"

definition showPaymentUI :: "nat \<Rightarrow> jsval \<Rightarrow> nat \<Rightarrow> page \<Rightarrow> page" where
  "showPaymentUI r canMakePayment now s =
     (if \<not> truthy canMakePayment then s
      else on_attempt r (\<lambda>a. a\<lparr>presentation := Pending\<rparr>)
             (on_attempt r (\<lambda>a. a\<lparr>paymentTimeout := Some (now + timeout_delay)\<rparr>) s))"

definition timeout_callback :: "nat \<Rightarrow> page \<Rightarrow> page" where
  \<comment> \<open>the function given to \<^verbatim>\<open>setTimeout\<close>: clears the timer, calls \<^verbatim>\<open>request.abort()\<close>\<close>
  "timeout_callback r s = on_attempt r (\<lambda>a. a\<lparr>abortion := Pending\<rparr>) (clearTimeout r s)"

definition abort_then :: "page \<Rightarrow> page" where
  "abort_then s = showStatus ''Payment timed out.'' ''error'' s"

definition abort_catch :: "page \<Rightarrow> page" where
  "abort_catch s = s"

definition complete_then :: "page \<Rightarrow> page" where
  "complete_then s = showStatus ''Payment successful!'' ''success'' s"

definition complete_catch :: "page \<Rightarrow> page" where
  "complete_catch s = showStatus ''Error completing payment.'' ''error'' s"

text \<open>
  \<^verbatim>\<open>processResponse\<close> reads \<^verbatim>\<open>paymentResponse.details\<close> and calls
  \<^verbatim>\<open>paymentResponse.complete('success')\<close>, which returns a promise; on a value that is
  no response the property access or the call throws a TypeError.
\<close>

definition processResponse :: "jsval \<Rightarrow> page \<Rightarrow> page \<times> js_error option" where
  "processResponse paymentResponse s =
     (case paymentResponse of
        Response p \<Rightarrow> (on_attempt (requestId p) (\<lambda>a. a\<lparr>completion := Pending\<rparr>) s, None)
      | _ \<Rightarrow> (s, Some (JsError ''TypeError'' ''Cannot read properties of undefined'')))"

definition show_then :: "nat \<Rightarrow> jsval \<Rightarrow> page \<Rightarrow> page \<times> js_error option" where
  "show_then r paymentResponse s = processResponse paymentResponse (clearTimeout r s)"

definition show_catch :: "nat \<Rightarrow> js_error \<Rightarrow> nat \<Rightarrow> page \<Rightarrow> page" where
  "show_catch r err now s =
     (let s1 = clearTimeout r s in
      if name err = ''NotSupportedError'' then handleNotReadyToPay now s1
      else if name err = ''AbortError'' then showStatus ''Payment was cancelled.'' ''info'' s1
      else showStatus (''Payment failed: '' @ message err) ''error'' s1)"

definition show_finally :: "page \<Rightarrow> page" where
  "show_finally s = set_disabled False s"

definition probe_then :: "nat \<Rightarrow> jsval \<Rightarrow> nat \<Rightarrow> page \<Rightarrow> page" where
  "probe_then r result now s = showPaymentUI r result now s"

definition probe_catch :: "page \<Rightarrow> page" where
  "probe_catch s = set_disabled False (showStatus ''Error checking payment availability.'' ''error'' s)"

definition new_attempt :: "instrument list \<Rightarrow> order_details \<Rightarrow> attempt" where
  "new_attempt ins d = \<lparr> instruments = ins, order = d, probe = Unrequested,
      presentation = Unrequested, abortion = Unrequested, completion = Unrequested,
      paymentTimeout = None \<rparr>"

text \<open>The two constants \<^verbatim>\<open>onBuyClicked\<close> builds for the constructor.\<close>

definition supportedInstruments :: "string \<Rightarrow> instrument list" where
  "supportedInstruments transactionId =
     [\<lparr> supportedMethods = [''https://tez.google.com/pay''],
        data = \<lparr> pa = pa MERCHANT_CONFIG, pn = pn MERCHANT_CONFIG,
                 mc = mc MERCHANT_CONFIG, tn = tn MERCHANT_CONFIG,
                 tr = transactionId, url = ''https://google.com'' \<rparr> \<rparr>]"

definition details :: order_details where
  "details = \<lparr> label = ''Total'', currency = ''INR'', amount_value = AMOUNT \<rparr>"

definition onBuyClicked :: "browser \<Rightarrow> nat \<Rightarrow> page \<Rightarrow> page" where
  "onBuyClicked b now s =
     (if \<not> PaymentRequest_defined b
      then showStatus ''Web payments are not supported in this browser.'' ''error'' s
      else
        let transactionId = generateTransactionReferenceID now in
        case construct b (supportedInstruments transactionId) details of
          Some e \<Rightarrow> showStatus (''Payment Request Error: '' @ message e) ''error'' s
        | None \<Rightarrow>
            let request = length (attempts s);
                s1 = s\<lparr>attempts := attempts s @
                                     [new_attempt (supportedInstruments transactionId) details]\<rparr>;
                s2 = set_disabled True s1;
                s3 = showStatus ''Checking payment availability...'' ''info'' s2
            in on_attempt request (\<lambda>a. a\<lparr>probe := Pending\<rparr>) s3)"

subsection \<open>Promise reactions\<close>

text \<open>
  The script attaches its callbacks in chains, \<^verbatim>\<open>p.then(f).catch(g).finally(h)\<close>. The
  callbacks are closures; each is named here by a constructor carrying what it captured
  (the request, and with it \<^verbatim>\<open>paymentTimeout\<close>).
\<close>

datatype on_fulfilled = ProbeThen nat | ShowThen nat | AbortThen | CompleteThen
datatype on_rejected = ProbeCatch | ShowCatch nat | AbortCatch | CompleteCatch
datatype on_finally = ShowFinally

datatype link = Then on_fulfilled | Catch on_rejected | Finally on_finally

datatype settlement = Fulfil jsval | Reject js_error

fun call_then :: "on_fulfilled \<Rightarrow> jsval \<Rightarrow> nat \<Rightarrow> page \<Rightarrow> page \<times> js_error option" where
  "call_then (ProbeThen r) v now s = (probe_then r v now s, None)"
| "call_then (ShowThen r) v now s = show_then r v s"
| "call_then AbortThen v now s = (abort_then s, None)"
| "call_then CompleteThen v now s = (complete_then s, None)"

fun call_catch :: "on_rejected \<Rightarrow> js_error \<Rightarrow> nat \<Rightarrow> page \<Rightarrow> page" where
  "call_catch ProbeCatch e now s = probe_catch s"
| "call_catch (ShowCatch r) e now s = show_catch r e now s"
| "call_catch AbortCatch e now s = abort_catch s"
| "call_catch CompleteCatch e now s = complete_catch s"

fun call_finally :: "on_finally \<Rightarrow> page \<Rightarrow> page" where
  "call_finally ShowFinally s = show_finally s"

definition probe_chain :: "nat \<Rightarrow> link list" where
  "probe_chain r = [Then (ProbeThen r), Catch ProbeCatch]"

definition show_chain :: "nat \<Rightarrow> link list" where
  "show_chain r = [Then (ShowThen r), Catch (ShowCatch r), Finally ShowFinally]"

definition abort_chain :: "link list" where
  "abort_chain = [Then AbortThen, Catch AbortCatch]"

definition complete_chain :: "link list" where
  "complete_chain = [Then CompleteThen, Catch CompleteCatch]"

text \<open>
  One reaction: the settlement of a promise meets the next link of the chain attached to
  it and settles the promise that link returned. \<^verbatim>\<open>then(f)\<close> passes a rejection on,
  \<^verbatim>\<open>catch(g)\<close> passes a value on, \<^verbatim>\<open>finally(h)\<close> runs on both and passes the settlement
  on. A callback that returns gives \<^verbatim>\<open>undefined\<close>; one that throws rejects.
\<close>

fun react :: "link \<Rightarrow> settlement \<Rightarrow> nat \<Rightarrow> page \<Rightarrow> page \<times> settlement" where
  "react (Then f) (Fulfil v) now s =
     (case call_then f v now s of
        (s', None) \<Rightarrow> (s', Fulfil Undefined)
      | (s', Some e) \<Rightarrow> (s', Reject e))"
| "react (Then f) (Reject e) now s = (s, Reject e)"
| "react (Catch g) (Fulfil v) now s = (s, Fulfil v)"
| "react (Catch g) (Reject e) now s = (call_catch g e now s, Fulfil Undefined)"
| "react (Finally h) x now s = (call_finally h s, x)"

text \<open>
  The microtask queue: each job is a settlement and the links still to be met. Jobs run
  first in, first out; the reaction for the next link of a chain is queued behind the jobs
  already waiting. The queue is run to the end after every task.
\<close>

type_synonym job = "settlement \<times> link list"

function drain :: "nat \<Rightarrow> job list \<Rightarrow> page \<Rightarrow> page" where
  "drain now [] s = s"
| "drain now ((x, []) # q) s = drain now q s"
| "drain now ((x, l # ls) # q) s =
     (case react l x now s of (s', x') \<Rightarrow> drain now (q @ [(x', ls)]) s')"
  by pat_completeness auto
termination
  by (relation "measure (\<lambda>(now, q, s). sum_list (map (\<lambda>j. Suc (length (snd j))) q))") auto

subsection \<open>Tasks: what the browser does to the page\<close>

text \<open>
  A click on the button; a promise of request \<open>r\<close> settling; the timer of request \<open>r\<close>
  coming due. Each task carries the time at which it runs.

  The abort task follows the Payment Request API: when the user interaction can be
  aborted, the browser rejects the promise returned by \<^verbatim>\<open>show()\<close> with an AbortError and
  then resolves the promise returned by \<^verbatim>\<open>abort()\<close>, in the same task; when it cannot, it
  rejects the promise returned by \<^verbatim>\<open>abort()\<close> with an InvalidStateError.
\<close>

datatype event =
    Click
  | ProbeSettled nat "js_error + bool"
  | ShowSettled nat "js_error + string"
  | TimerFired nat
  | AbortSettled nat bool
  | CompleteSettled nat "js_error option"

definition AbortError :: js_error where
  "AbortError = JsError ''AbortError'' ''The user aborted a request.''"

definition InvalidStateError :: js_error where
  "InvalidStateError = JsError ''InvalidStateError'' ''Unable to abort the payment''"

definition timer_due :: "nat \<Rightarrow> nat \<Rightarrow> page \<Rightarrow> bool" where
  "timer_due r now s =
     (r < length (attempts s) \<and>
      (case paymentTimeout (attempts s ! r) of None \<Rightarrow> False | Some d \<Rightarrow> d \<le> now))"

text \<open>
  Which tasks can happen: a disabled button dispatches no click, only a pending promise
  settles, only an armed timer fires and not before it is due, and a request whose
  \<^verbatim>\<open>show()\<close> promise has settled can no longer be aborted.
\<close>

fun enabled :: "nat \<Rightarrow> event \<Rightarrow> page \<Rightarrow> bool" where
  "enabled now Click s = (\<not> disabled s)"
| "enabled now (ProbeSettled r res) s = pending probe r s"
| "enabled now (ShowSettled r res) s = pending presentation r s"
| "enabled now (TimerFired r) s = timer_due r now s"
| "enabled now (AbortSettled r ok) s =
     (pending abortion r s \<and> (if ok then pending presentation r s else True))"
| "enabled now (CompleteSettled r res) s = pending completion r s"

fun deliver :: "browser \<Rightarrow> nat \<Rightarrow> event \<Rightarrow> page \<Rightarrow> page \<times> job list" where
  "deliver b now Click s = (onBuyClicked b now s, [])"
| "deliver b now (ProbeSettled r (Inr v)) s =
     (on_attempt r (\<lambda>a. a\<lparr>probe := Resolved\<rparr>) s, [(Fulfil (Boolean v), probe_chain r)])"
| "deliver b now (ProbeSettled r (Inl e)) s =
     (on_attempt r (\<lambda>a. a\<lparr>probe := Rejected\<rparr>) s, [(Reject e, probe_chain r)])"
| "deliver b now (ShowSettled r (Inr d)) s =
     (on_attempt r (\<lambda>a. a\<lparr>presentation := Resolved\<rparr>) s,
      [(Fulfil (Response \<lparr>requestId = r, response_details = d\<rparr>), show_chain r)])"
| "deliver b now (ShowSettled r (Inl e)) s =
     (on_attempt r (\<lambda>a. a\<lparr>presentation := Rejected\<rparr>) s, [(Reject e, show_chain r)])"
| "deliver b now (TimerFired r) s = (timeout_callback r s, [])"
| "deliver b now (AbortSettled r True) s =
     (on_attempt r (\<lambda>a. a\<lparr>presentation := Rejected, abortion := Resolved\<rparr>) s,
      [(Reject AbortError, show_chain r), (Fulfil Undefined, abort_chain)])"
| "deliver b now (AbortSettled r False) s =
     (on_attempt r (\<lambda>a. a\<lparr>abortion := Rejected\<rparr>) s, [(Reject InvalidStateError, abort_chain)])"
| "deliver b now (CompleteSettled r None) s =
     (on_attempt r (\<lambda>a. a\<lparr>completion := Resolved\<rparr>) s, [(Fulfil Undefined, complete_chain)])"
| "deliver b now (CompleteSettled r (Some e)) s =
     (on_attempt r (\<lambda>a. a\<lparr>completion := Rejected\<rparr>) s, [(Reject e, complete_chain)])"

definition step :: "browser \<Rightarrow> page \<Rightarrow> nat \<times> event \<Rightarrow> page" where
  "step b s task =
     (case task of (now, ev) \<Rightarrow>
        if enabled now ev s then (case deliver b now ev s of (s', q) \<Rightarrow> drain now q s') else s)"

definition run :: "browser \<Rightarrow> page \<Rightarrow> (nat \<times> event) list \<Rightarrow> page" where
  "run b s tasks = foldl (step b) s tasks"

subsection \<open>Observations used to state the properties\<close>

text \<open>The DOM writes made between two states of the page.\<close>

definition new_writes :: "page \<Rightarrow> page \<Rightarrow> dom_write list" where
  "new_writes s s' = drop (length (writes s)) (writes s')"

text \<open>
  The button ends enabled, the earlier writes are untouched, and exactly one of the new
  writes is \<^verbatim>\<open>gpayButton.disabled = false\<close>.
\<close>

definition reenabled_once :: "page \<Rightarrow> page \<Rightarrow> bool" where
  "reenabled_once s s' =
     (\<not> disabled s' \<and> take (length (writes s)) (writes s') = writes s \<and>
      count_list (new_writes s s') (ButtonWrite False) = 1)"

text \<open>
  An attempt has settled when its capability probe was rejected or its \<^verbatim>\<open>show()\<close>
  promise has settled, whoever settled it.
\<close>

definition settled :: "attempt \<Rightarrow> bool" where
  "settled a = (probe a = Rejected \<or> presentation a = Resolved \<or> presentation a = Rejected)"

definition status_writes :: "dom_write list \<Rightarrow> (string \<times> string) list" where
  "status_writes ws = concat (map (\<lambda>w. case w of StatusWrite m t \<Rightarrow> [(m, t)] | _ \<Rightarrow> []) ws)"

text \<open>Browsers and scenarios on which the properties are exercised.\<close>

definition payment_browser :: browser where
  \<comment> \<open>has the API and accepts the request\<close>
  "payment_browser = \<lparr> PaymentRequest_defined = True, construct = (\<lambda>i d. None) \<rparr>"

definition rejecting_browser :: browser where
  \<comment> \<open>has the API, the constructor throws\<close>
  "rejecting_browser = \<lparr> PaymentRequest_defined = True,
       construct = (\<lambda>i d. Some (JsError ''TypeError'' ''invalid payment method data'')) \<rparr>"

definition plain_browser :: browser where
  \<comment> \<open>no \<^verbatim>\<open>PaymentRequest\<close> global\<close>
  "plain_browser = \<lparr> PaymentRequest_defined = False, construct = (\<lambda>i d. None) \<rparr>"

definition probing :: page where
  \<comment> \<open>clicked at time 1000, \<^verbatim>\<open>canMakePayment()\<close> pending\<close>
  "probing = run payment_browser initial_page [(1000, Click)]"

definition presenting :: page where
  \<comment> \<open>the sheet is shown since time 1010, the timer is due at 1201010\<close>
  "presenting = run payment_browser initial_page [(1000, Click), (1010, ProbeSettled 0 (Inr True))]"

definition aborting :: page where
  \<comment> \<open>the timer has fired at its due time and \<^verbatim>\<open>request.abort()\<close> is pending\<close>
  "aborting = run payment_browser initial_page
     [(1000, Click), (1010, ProbeSettled 0 (Inr True)), (1201010, TimerFired 0)]"

definition timed_out :: page where
  \<comment> \<open>the abort has succeeded\<close>
  "timed_out = run payment_browser initial_page
     [(1000, Click), (1010, ProbeSettled 0 (Inr True)), (1201010, TimerFired 0),
      (1201011, AbortSettled 0 True)]"

text \<open>
  What holds of the page between tasks: the button is disabled exactly while the latest
  request is unsettled, every earlier request has settled, \<^verbatim>\<open>show()\<close> is only requested
  after the probe resolved, and \<^verbatim>\<open>gpayButton.disabled = false\<close> has been written as often
  as there are settled requests.
\<close>

definition coherent :: "page \<Rightarrow> bool" where
  "coherent s =
     (disabled s = (attempts s \<noteq> [] \<and> \<not> settled (last (attempts s))) \<and>
      list_all settled (butlast (attempts s)) \<and>
      list_all (\<lambda>a. presentation a = Unrequested \<or> probe a = Resolved) (attempts s) \<and>
      count_list (writes s) (ButtonWrite False) = length (filter settled (attempts s)))"

section \<open>Properties\<close>

subsection \<open>Decimal numerals and percent-encoding\<close>

lemma digit_value_digit_char: "d < 10 \<Longrightarrow> digit_value (digit_char d) = d"
  by (simp add: digit_value_def digit_char_def)

lemma decimal_value_snoc: "decimal_value (s @ [c]) = 10 * decimal_value s + digit_value c"
  by (simp add: decimal_value_def)

lemma decimal_value_ToString: "decimal_value (ToString n) = n"
proof (induction n rule: ToString.induct)
  case (1 n)
  show ?case
  proof (cases "n < 10")
    case True
    then show ?thesis
      by (simp add: ToString.simps [of n] decimal_value_def digit_value_digit_char)
  next
    case False
    with 1 have "decimal_value (ToString (n div 10)) = n div 10" by simp
    with False show ?thesis
      by (simp add: ToString.simps [of n] decimal_value_snoc digit_value_digit_char)
  qed
qed

lemma ToString_inject: "ToString m = ToString n \<Longrightarrow> m = n"
  by (metis decimal_value_ToString)

lemma ToString_not_Nil: "ToString n \<noteq> []"
  by (subst ToString.simps) simp

lemma hexDigit_unescaped: "k < 16 \<Longrightarrow> uriUnescaped (hexDigit k)"
proof -
  assume "k < 16"
  then have "k = 0 \<or> k = 1 \<or> k = 2 \<or> k = 3 \<or> k = 4 \<or> k = 5 \<or> k = 6 \<or> k = 7 \<or> k = 8 \<or>
             k = 9 \<or> k = 10 \<or> k = 11 \<or> k = 12 \<or> k = 13 \<or> k = 14 \<or> k = 15"
    by arith
  then show ?thesis
    by (elim disjE) (simp_all add: hexDigit_def uriUnescaped_def)
qed

lemma percentEncode_chars: "set (percentEncode c) \<subseteq> {c. uriUnescaped c} \<union> {CHR ''%''}"
proof -
  have "(of_char c :: nat) div 16 < 16"
    using nat_of_char_less_256 [of c] by (simp add: less_mult_imp_div_less)
  then show ?thesis
    by (simp add: percentEncode_def hexDigit_unescaped)
qed

lemma encodeURIComponent_chars:
  "set (encodeURIComponent s) \<subseteq> {c. uriUnescaped c} \<union> {CHR ''%''}"
  using percentEncode_chars by (induction s) (auto simp: encodeURIComponent_def)

lemmas encode_defs = encodeURIComponent_def percentEncode_def uriUnescaped_def hexDigit_def
  char_of_eq_iff

lemma encoded_payee_address: "encodeURIComponent (pa MERCHANT_CONFIG) = ''9110190178%40okbizaxis''"
  by (simp add: MERCHANT_CONFIG_def encode_defs)

lemma encoded_payee_name: "encodeURIComponent (pn MERCHANT_CONFIG) = ''Ms.%20Priya%20Kumari''"
  by (simp add: MERCHANT_CONFIG_def encode_defs)

text \<open>
  C9. The transaction reference is the tag \<open>TXN\<close> followed by the decimal numeral of the
  timestamp, and references generated at different timestamps differ.
\<close>

theorem transaction_reference_distinct:
  "generateTransactionReferenceID t = ''TXN'' @ ToString t \<and>
   (t1 \<noteq> t2 \<longrightarrow> generateTransactionReferenceID t1 \<noteq> generateTransactionReferenceID t2)"
  by (auto simp: generateTransactionReferenceID_def dest: ToString_inject)

theorem transaction_reference_distinct_witness:
  "generateTransactionReferenceID 1730000000000 = ''TXN1730000000000'' \<and>
   (1730000000000::nat) \<noteq> 1730000000001 \<and>
   generateTransactionReferenceID 1730000000000 \<noteq> generateTransactionReferenceID 1730000000001"
proof -
  have "generateTransactionReferenceID 1730000000000 = ''TXN1730000000000''"
    by (simp add: generateTransactionReferenceID_def ToString.simps digit_char_def char_of_eq_iff)
  moreover have "(1730000000000::nat) \<noteq> 1730000000001"
    by simp
  ultimately show ?thesis
    using transaction_reference_distinct [of 1730000000000 1730000000000 1730000000001]
    by blast
qed

lemma onBuyClicked_reference:
  assumes "PaymentRequest_defined b"
    and "construct b (supportedInstruments (generateTransactionReferenceID now)) details = None"
  shows "map (\<lambda>i. tr (data i)) (instruments (last (attempts (onBuyClicked b now s)))) =
           [generateTransactionReferenceID now]"
  using assms
  by (simp add: onBuyClicked_def on_attempt_def showStatus_def set_disabled_def Let_def
      nth_append new_attempt_def supportedInstruments_def)

text \<open>
  C10. The deep-link fallback assigns to \<^verbatim>\<open>location.href\<close> the URI
  \<^verbatim>\<open>gpay://upi/pay?pa=..&pn=..&am=1.00&cu=INR&tr=..\<close> whose payee address and name are the
  percent-encoded configuration values (only unreserved characters and \<open>%\<close> are left
  in an encoded component) and whose transaction reference is not empty.
\<close>

theorem deep_link_uri:
  "href (handleNotReadyToPay now s) =
     ''gpay://upi/pay?pa='' @ encodeURIComponent (pa MERCHANT_CONFIG) @
     ''&pn='' @ encodeURIComponent (pn MERCHANT_CONFIG) @
     ''&am='' @ AMOUNT @ ''&cu=INR&tr='' @ generateTransactionReferenceID now \<and>
   href (handleNotReadyToPay now s) =
     ''gpay://upi/pay?pa=9110190178%40okbizaxis&pn=Ms.%20Priya%20Kumari&am=1.00&cu=INR&tr=TXN''
       @ ToString now \<and>
   set (encodeURIComponent x) \<subseteq> {c. uriUnescaped c} \<union> {CHR ''%''} \<and>
   generateTransactionReferenceID now \<noteq> [] \<and>
   new_writes s (handleNotReadyToPay now s) = [Navigate (href (handleNotReadyToPay now s))]"
  using encodeURIComponent_chars [of x]
  by (simp add: handleNotReadyToPay_def encoded_payee_address encoded_payee_name AMOUNT_def
      generateTransactionReferenceID_def new_writes_def Let_def)

lemma deep_link_uri_at_5000:
  "href (handleNotReadyToPay 5000 s) =
     ''gpay://upi/pay?pa=9110190178%40okbizaxis&pn=Ms.%20Priya%20Kumari&am=1.00&cu=INR&tr=TXN5000''"
  by (simp add: handleNotReadyToPay_def encoded_payee_address encoded_payee_name AMOUNT_def
      generateTransactionReferenceID_def Let_def ToString.simps digit_char_def char_of_eq_iff)

subsection \<open>What each task does to the page\<close>

lemmas script_defs = showStatus_def set_disabled_def clearTimeout_def handleNotReadyToPay_def
  showPaymentUI_def timeout_callback_def abort_then_def abort_catch_def complete_then_def
  complete_catch_def processResponse_def show_then_def show_catch_def show_finally_def
  probe_then_def probe_catch_def on_attempt_def pending_def onBuyClicked_def new_attempt_def

lemmas chain_defs = probe_chain_def show_chain_def abort_chain_def complete_chain_def

lemmas fixture_defs = payment_browser_def rejecting_browser_def plain_browser_def
  initial_page_def run_def step_def timer_due_def timeout_delay_def AbortError_def
  InvalidStateError_def

text \<open>
  Running the microtask queue after each task gives these closed forms; the order of the
  callbacks in them is the order the queue produces.
\<close>

lemma step_Click: "\<not> disabled s \<Longrightarrow> step b s (now, Click) = onBuyClicked b now s"
  by (simp add: step_def)

lemma step_ProbeSettled_Inr:
  "pending probe r s \<Longrightarrow>
   step b s (now, ProbeSettled r (Inr v)) =
     showPaymentUI r (Boolean v) now (on_attempt r (\<lambda>a. a\<lparr>probe := Resolved\<rparr>) s)"
  by (simp add: step_def chain_defs probe_then_def)

lemma step_ProbeSettled_Inl:
  "pending probe r s \<Longrightarrow>
   step b s (now, ProbeSettled r (Inl e)) =
     probe_catch (on_attempt r (\<lambda>a. a\<lparr>probe := Rejected\<rparr>) s)"
  by (simp add: step_def chain_defs)

lemma step_ShowSettled_Inr:
  "pending presentation r s \<Longrightarrow>
   step b s (now, ShowSettled r (Inr d)) =
     show_finally (on_attempt r (\<lambda>a. a\<lparr>completion := Pending\<rparr>)
       (clearTimeout r (on_attempt r (\<lambda>a. a\<lparr>presentation := Resolved\<rparr>) s)))"
  by (simp add: step_def chain_defs show_then_def processResponse_def)

lemma step_ShowSettled_Inl:
  "pending presentation r s \<Longrightarrow>
   step b s (now, ShowSettled r (Inl e)) =
     show_finally (show_catch r e now (on_attempt r (\<lambda>a. a\<lparr>presentation := Rejected\<rparr>) s))"
  by (simp add: step_def chain_defs)

lemma step_TimerFired: "timer_due r now s \<Longrightarrow> step b s (now, TimerFired r) = timeout_callback r s"
  by (simp add: step_def)

lemma step_AbortSettled_True:
  "pending abortion r s \<Longrightarrow> pending presentation r s \<Longrightarrow>
   step b s (now, AbortSettled r True) =
     show_finally (show_catch r AbortError now (abort_then
       (on_attempt r (\<lambda>a. a\<lparr>presentation := Rejected, abortion := Resolved\<rparr>) s)))"
  by (simp add: step_def chain_defs)

lemma step_AbortSettled_False:
  "pending abortion r s \<Longrightarrow>
   step b s (now, AbortSettled r False) = on_attempt r (\<lambda>a. a\<lparr>abortion := Rejected\<rparr>) s"
  by (simp add: step_def chain_defs abort_catch_def)

lemma step_CompleteSettled_None:
  "pending completion r s \<Longrightarrow>
   step b s (now, CompleteSettled r None) =
     complete_then (on_attempt r (\<lambda>a. a\<lparr>completion := Resolved\<rparr>) s)"
  by (simp add: step_def chain_defs)

lemma step_CompleteSettled_Some:
  "pending completion r s \<Longrightarrow>
   step b s (now, CompleteSettled r (Some e)) =
     complete_catch (on_attempt r (\<lambda>a. a\<lparr>completion := Rejected\<rparr>) s)"
  by (simp add: step_def chain_defs)

lemma step_not_enabled: "\<not> enabled now ev s \<Longrightarrow> step b s (now, ev) = s"
  by (simp add: step_def)

text \<open>The scenarios, evaluated.\<close>

lemma probing_eq:
  "probing = \<lparr> disabled = True, textContent = ''Checking payment availability...'',
     className = ''info'', href = [],
     writes = [ButtonWrite True, StatusWrite ''Checking payment availability...'' ''info''],
     attempts = [(new_attempt (supportedInstruments (generateTransactionReferenceID 1000)) details)
                   \<lparr>probe := Pending\<rparr>] \<rparr>"
  by (simp add: probing_def fixture_defs script_defs chain_defs)

lemma presenting_eq:
  "presenting = \<lparr> disabled = True, textContent = ''Checking payment availability...'',
     className = ''info'', href = [],
     writes = [ButtonWrite True, StatusWrite ''Checking payment availability...'' ''info''],
     attempts = [(new_attempt (supportedInstruments (generateTransactionReferenceID 1000)) details)
                   \<lparr>probe := Resolved, presentation := Pending, paymentTimeout := Some 1201010\<rparr>] \<rparr>"
  by (simp add: presenting_def fixture_defs script_defs chain_defs)

lemma aborting_eq:
  "aborting = \<lparr> disabled = True, textContent = ''Checking payment availability...'',
     className = ''info'', href = [],
     writes = [ButtonWrite True, StatusWrite ''Checking payment availability...'' ''info''],
     attempts = [(new_attempt (supportedInstruments (generateTransactionReferenceID 1000)) details)
                   \<lparr>probe := Resolved, presentation := Pending, abortion := Pending\<rparr>] \<rparr>"
  by (simp add: aborting_def fixture_defs script_defs chain_defs)

lemma timed_out_eq:
  "timed_out = \<lparr> disabled = False, textContent = ''Payment was cancelled.'',
     className = ''info'', href = [],
     writes = [ButtonWrite True, StatusWrite ''Checking payment availability...'' ''info'',
               StatusWrite ''Payment timed out.'' ''error'',
               StatusWrite ''Payment was cancelled.'' ''info'', ButtonWrite False],
     attempts = [(new_attempt (supportedInstruments (generateTransactionReferenceID 1000)) details)
                   \<lparr>probe := Resolved, presentation := Rejected, abortion := Resolved\<rparr>] \<rparr>"
  by (simp add: timed_out_def fixture_defs script_defs chain_defs)

lemma pending_probing: "pending probe 0 probing"
  by (simp add: probing_eq pending_def new_attempt_def)

lemma pending_presenting: "pending presentation 0 presenting"
  by (simp add: presenting_eq pending_def new_attempt_def)

lemma pending_aborting: "pending abortion 0 aborting \<and> pending presentation 0 aborting"
  by (simp add: aborting_eq pending_def new_attempt_def)

subsection \<open>Release of the trigger\<close>

lemma reenabled_once_show_finally:
  "writes s' = writes s @ ws \<Longrightarrow> count_list ws (ButtonWrite False) = 0 \<Longrightarrow>
   reenabled_once s (show_finally s')"
  by (simp add: reenabled_once_def new_writes_def show_finally_def set_disabled_def)

lemma reenabled_once_ShowSettled:
  assumes "pending presentation r s"
  shows "reenabled_once s (step b s (now, ShowSettled r res))"
proof (cases res)
  case (Inl e)
  have "\<exists>ws. writes (show_catch r e now (on_attempt r (\<lambda>a. a\<lparr>presentation := Rejected\<rparr>) s))
            = writes s @ ws \<and> count_list ws (ButtonWrite False) = 0"
    by (simp add: script_defs Let_def)
  with Inl assms show ?thesis
    by (auto simp: step_ShowSettled_Inl intro: reenabled_once_show_finally)
next
  case (Inr d)
  have "writes (on_attempt r (\<lambda>a. a\<lparr>completion := Pending\<rparr>)
          (clearTimeout r (on_attempt r (\<lambda>a. a\<lparr>presentation := Resolved\<rparr>) s))) = writes s @ []"
    by (simp add: script_defs)
  with Inr assms show ?thesis
    by (simp add: step_ShowSettled_Inr reenabled_once_show_finally)
qed

lemma reenabled_once_AbortSettled:
  assumes "pending abortion r s" and "pending presentation r s"
  shows "reenabled_once s (step b s (now, AbortSettled r True))"
proof -
  have "\<exists>ws. writes (show_catch r AbortError now (abort_then
          (on_attempt r (\<lambda>a. a\<lparr>presentation := Rejected, abortion := Resolved\<rparr>) s)))
            = writes s @ ws \<and> count_list ws (ButtonWrite False) = 0"
    by (simp add: script_defs Let_def)
  with assms show ?thesis
    by (auto simp: step_AbortSettled_True intro: reenabled_once_show_finally)
qed

lemma reenabled_once_ProbeSettled:
  assumes "pending probe r s"
  shows "reenabled_once s (step b s (now, ProbeSettled r (Inl e)))"
  using assms
  by (simp add: step_ProbeSettled_Inl reenabled_once_def new_writes_def probe_catch_def
      showStatus_def set_disabled_def on_attempt_def)

lemma unsettled_is_last:
  assumes "list_all settled (butlast xs)" and "r < length xs" and "\<not> settled (xs ! r)"
  obtains ys where "xs = ys @ [xs ! r]" and "r = length ys" and "list_all settled ys"
proof -
  have "\<not> r < length (butlast xs)"
  proof
    assume "r < length (butlast xs)"
    with assms(1) have "settled (butlast xs ! r)"
      by (simp add: list_all_length)
    with \<open>r < length (butlast xs)\<close> assms(3) show False
      by (simp add: nth_butlast)
  qed
  with assms(2) have r: "r = length xs - 1"
    by simp
  from assms(2) have "xs \<noteq> []"
    by auto
  then have "xs = butlast xs @ [last xs]"
    by simp
  moreover from \<open>xs \<noteq> []\<close> r have "last xs = xs ! r"
    by (simp add: last_conv_nth)
  ultimately have "xs = butlast xs @ [xs ! r]"
    by simp
  moreover from r have "r = length (butlast xs)"
    by simp
  ultimately show thesis
    using assms(1) that by blast
qed

lemma map_update_same:
  "r < length xs \<Longrightarrow> f y = f (xs ! r) \<Longrightarrow> map f (xs[r := y]) = map f xs"
  by (simp add: list_eq_iff_nth_eq nth_list_update)

lemma coherent_cong:
  assumes "coherent s"
    and "disabled s' = disabled s"
    and "map settled (attempts s') = map settled (attempts s)"
    and "map (\<lambda>a. presentation a = Unrequested \<or> probe a = Resolved) (attempts s') =
         map (\<lambda>a. presentation a = Unrequested \<or> probe a = Resolved) (attempts s)"
    and "count_list (writes s') (ButtonWrite False) = count_list (writes s) (ButtonWrite False)"
  shows "coherent s'"
proof -
  have alt: "coherent t =
      (disabled t = (map settled (attempts t) \<noteq> [] \<and> \<not> last (map settled (attempts t))) \<and>
       list_all id (butlast (map settled (attempts t))) \<and>
       list_all id (map (\<lambda>a. presentation a = Unrequested \<or> probe a = Resolved) (attempts t)) \<and>
       count_list (writes t) (ButtonWrite False) = length (filter id (map settled (attempts t))))"
    for t
    by (cases "attempts t" rule: rev_cases) (simp_all add: coherent_def list.pred_map o_def)
  from assms show ?thesis
    by (simp add: alt)
qed

lemma coherent_on_attempt:
  assumes "coherent s" and "r < length (attempts s)"
    and "settled (f (attempts s ! r)) = settled (attempts s ! r)"
    and "(presentation (f (attempts s ! r)) = Unrequested \<or> probe (f (attempts s ! r)) = Resolved) =
         (presentation (attempts s ! r) = Unrequested \<or> probe (attempts s ! r) = Resolved)"
  shows "coherent (on_attempt r f s)"
proof (rule coherent_cong [OF assms(1)])
  show "disabled (on_attempt r f s) = disabled s"
    by (simp add: on_attempt_def)
  show "map settled (attempts (on_attempt r f s)) = map settled (attempts s)"
    using assms(2,3) by (simp add: on_attempt_def map_update_same)
  show "map (\<lambda>a. presentation a = Unrequested \<or> probe a = Resolved) (attempts (on_attempt r f s)) =
        map (\<lambda>a. presentation a = Unrequested \<or> probe a = Resolved) (attempts s)"
    using assms(2,4) by (simp add: on_attempt_def map_update_same)
  show "count_list (writes (on_attempt r f s)) (ButtonWrite False) =
        count_list (writes s) (ButtonWrite False)"
    by (simp add: on_attempt_def)
qed

lemma coherent_showStatus: "coherent s \<Longrightarrow> coherent (showStatus m t s)"
  by (simp add: coherent_def showStatus_def)

lemma coherent_initial: "coherent initial_page"
  by (simp add: coherent_def initial_page_def)

lemma coherent_onBuyClicked:
  assumes "coherent s" and "\<not> disabled s"
  shows "coherent (onBuyClicked b now s)"
proof -
  from assms have "attempts s = [] \<or> settled (last (attempts s))"
    by (auto simp: coherent_def)
  then have "list_all settled (attempts s)"
  proof
    assume "attempts s = []"
    then show ?thesis by simp
  next
    assume l: "settled (last (attempts s))"
    show ?thesis
    proof (cases "attempts s = []")
      case True
      then show ?thesis by simp
    next
      case False
      then have "attempts s = butlast (attempts s) @ [last (attempts s)]"
        by simp
      then have "list_all settled (attempts s) =
          list_all settled (butlast (attempts s) @ [last (attempts s)])"
        by simp
      with assms(1) l show ?thesis
        by (simp add: coherent_def)
    qed
  qed
  with assms show ?thesis
    by (auto simp: onBuyClicked_def coherent_showStatus Let_def coherent_def showStatus_def
        set_disabled_def on_attempt_def new_attempt_def settled_def split: option.splits)
qed

lemma coherent_settling:
  assumes "coherent s" and "r < length (attempts s)" and "\<not> settled (attempts s ! r)"
    and "settled (f (attempts s ! r))"
    and "presentation (f (attempts s ! r)) = Unrequested \<or> probe (f (attempts s ! r)) = Resolved"
    and "attempts s' = (attempts s)[r := f (attempts s ! r)]"
    and "\<not> disabled s'"
    and "count_list (writes s') (ButtonWrite False) = Suc (count_list (writes s) (ButtonWrite False))"
  shows "coherent s'"
proof -
  from assms(1) have "list_all settled (butlast (attempts s))"
    by (simp add: coherent_def)
  from this assms(2,3) obtain ys
    where xs: "attempts s = ys @ [attempts s ! r]" and r: "r = length ys" and ys: "list_all settled ys"
    by (rule unsettled_is_last)
  from xs r assms(6) have xs': "attempts s' = ys @ [f (attempts s ! r)]"
    by (metis list_update_length)
  from assms(1) have "count_list (writes s) (ButtonWrite False) =
      length (filter settled (ys @ [attempts s ! r]))"
    using xs by (simp add: coherent_def)
  with assms(3) have n: "count_list (writes s) (ButtonWrite False) = length (filter settled ys)"
    by simp
  from assms(1) have "list_all (\<lambda>a. presentation a = Unrequested \<or> probe a = Resolved)
      (ys @ [attempts s ! r])"
    using xs by (simp add: coherent_def)
  then have "list_all (\<lambda>a. presentation a = Unrequested \<or> probe a = Resolved) ys"
    by simp
  with assms(4,5,7,8) ys n show ?thesis
    by (simp add: coherent_def xs')
qed

lemma coherent_probe_before_show:
  "coherent s \<Longrightarrow> r < length (attempts s) \<Longrightarrow>
   presentation (attempts s ! r) = Unrequested \<or> probe (attempts s ! r) = Resolved"
  by (simp add: coherent_def list_all_length)

lemma on_attempt_twice: "on_attempt r f (on_attempt r g s) = on_attempt r (\<lambda>a. f (g a)) s"
  by (simp add: on_attempt_def)

lemma coherent_step:
  assumes "coherent s"
  shows "coherent (step b s (now, ev))"
proof (cases "enabled now ev s")
  case False
  with assms show ?thesis
    by (simp add: step_not_enabled)
next
  case en: True
  show ?thesis
  proof (cases ev)
    case Click
    with en assms show ?thesis
      by (simp add: step_Click coherent_onBuyClicked)
  next
    case (ProbeSettled r res)
    with en have p: "r < length (attempts s)" "probe (attempts s ! r) = Pending"
      by (simp_all add: pending_def)
    with assms have u: "presentation (attempts s ! r) = Unrequested"
      using coherent_probe_before_show [of s r] by simp
    show ?thesis
    proof (cases res)
      case (Inl e)
      have "coherent (probe_catch (on_attempt r (\<lambda>a. a\<lparr>probe := Rejected\<rparr>) s))"
        using assms p(1)
      proof (rule coherent_settling [where f = "\<lambda>a. a\<lparr>probe := Rejected\<rparr>"])
        show "\<not> settled (attempts s ! r)"
          using p u by (simp add: settled_def)
      qed (simp_all add: settled_def u p probe_catch_def showStatus_def set_disabled_def on_attempt_def)
      with Inl ProbeSettled en show ?thesis
        by (simp add: step_ProbeSettled_Inl)
    next
      case (Inr v)
      have "coherent (on_attempt r (\<lambda>a. if v then a\<lparr>probe := Resolved,
                paymentTimeout := Some (now + timeout_delay), presentation := Pending\<rparr>
              else a\<lparr>probe := Resolved\<rparr>) s)"
        using assms p(1) by (rule coherent_on_attempt) (simp_all add: settled_def u p)
      moreover have "step b s (now, ev) = on_attempt r (\<lambda>a. if v then a\<lparr>probe := Resolved,
                paymentTimeout := Some (now + timeout_delay), presentation := Pending\<rparr>
              else a\<lparr>probe := Resolved\<rparr>) s"
        using Inr ProbeSettled en p
        by (simp add: step_ProbeSettled_Inr showPaymentUI_def on_attempt_def)
      ultimately show ?thesis
        by simp
    qed
  next
    case (ShowSettled r res)
    with en have p: "r < length (attempts s)" "presentation (attempts s ! r) = Pending"
      by (simp_all add: pending_def)
    with assms have u: "probe (attempts s ! r) = Resolved"
      using coherent_probe_before_show [of s r] by simp
    from p u have n: "\<not> settled (attempts s ! r)"
      by (simp add: settled_def)
    show ?thesis
    proof (cases res)
      case (Inl e)
      have "coherent (show_finally (show_catch r e now
              (on_attempt r (\<lambda>a. a\<lparr>presentation := Rejected\<rparr>) s)))"
        using assms p(1) n
        by (rule coherent_settling
              [where f = "\<lambda>a. a\<lparr>presentation := Rejected, paymentTimeout := None\<rparr>"])
          (simp_all add: settled_def u p script_defs Let_def)
      with Inl ShowSettled en show ?thesis
        by (simp add: step_ShowSettled_Inl)
    next
      case (Inr d)
      have "coherent (show_finally (on_attempt r (\<lambda>a. a\<lparr>completion := Pending\<rparr>)
              (clearTimeout r (on_attempt r (\<lambda>a. a\<lparr>presentation := Resolved\<rparr>) s))))"
        using assms p(1) n
        by (rule coherent_settling
              [where f = "\<lambda>a. a\<lparr>presentation := Resolved, paymentTimeout := None,
                                 completion := Pending\<rparr>"])
          (simp_all add: settled_def u p script_defs)
      with Inr ShowSettled en show ?thesis
        by (simp add: step_ShowSettled_Inr)
    qed
  next
    case (TimerFired r)
    with en have p: "r < length (attempts s)"
      by (simp add: timer_due_def)
    have "coherent (on_attempt r (\<lambda>a. a\<lparr>paymentTimeout := None, abortion := Pending\<rparr>) s)"
      using assms p by (rule coherent_on_attempt) (simp_all add: settled_def)
    with TimerFired en show ?thesis
      by (simp add: step_TimerFired timeout_callback_def clearTimeout_def on_attempt_twice)
  next
    case (AbortSettled r ok)
    with en have p: "r < length (attempts s)" "abortion (attempts s ! r) = Pending"
      by (simp_all add: pending_def)
    show ?thesis
    proof (cases ok)
      case True
      with AbortSettled en have q: "presentation (attempts s ! r) = Pending"
        by (simp add: pending_def)
      with assms p have u: "probe (attempts s ! r) = Resolved"
        using coherent_probe_before_show [of s r] by simp
      from q u have n: "\<not> settled (attempts s ! r)"
        by (simp add: settled_def)
      have "coherent (show_finally (show_catch r AbortError now (abort_then
              (on_attempt r (\<lambda>a. a\<lparr>presentation := Rejected, abortion := Resolved\<rparr>) s))))"
        using assms p(1) n
        by (rule coherent_settling
              [where f = "\<lambda>a. a\<lparr>presentation := Rejected, abortion := Resolved,
                                 paymentTimeout := None\<rparr>"])
          (simp_all add: settled_def u p q script_defs Let_def AbortError_def)
      with True AbortSettled en show ?thesis
        by (simp add: step_AbortSettled_True)
    next
      case False
      have "coherent (on_attempt r (\<lambda>a. a\<lparr>abortion := Rejected\<rparr>) s)"
        using assms p(1) by (rule coherent_on_attempt) (simp_all add: settled_def)
      with False AbortSettled en show ?thesis
        by (simp add: step_AbortSettled_False)
    qed
  next
    case (CompleteSettled r res)
    with en have p: "r < length (attempts s)"
      by (simp add: pending_def)
    have "coherent (on_attempt r (\<lambda>a. a\<lparr>completion := x\<rparr>) s)" for x
      using assms p by (rule coherent_on_attempt) (simp_all add: settled_def)
    with CompleteSettled en show ?thesis
      by (cases res)
        (simp_all add: step_CompleteSettled_None step_CompleteSettled_Some complete_then_def
          complete_catch_def coherent_showStatus)
  qed
qed

lemma coherent_run: "coherent s \<Longrightarrow> coherent (run b s tasks)"
  unfolding run_def
proof (induction tasks arbitrary: s)
  case Nil
  then show ?case by simp
next
  case (Cons t tasks)
  obtain now ev where "t = (now, ev)"
    by (cases t)
  with Cons show ?case
    by (simp add: coherent_step)
qed

lemma reenabled_as_often_as_settled:
  "count_list (writes (run b initial_page tasks)) (ButtonWrite False) =
     length (filter settled (attempts (run b initial_page tasks))) \<and>
   disabled (run b initial_page tasks) =
     (attempts (run b initial_page tasks) \<noteq> [] \<and>
      \<not> settled (last (attempts (run b initial_page tasks))))"
  using coherent_run [OF coherent_initial, of b tasks] by (simp add: coherent_def)

text \<open>
  C1. On every path on which an attempt settles, the settling task leaves the button
  enabled and writes \<^verbatim>\<open>gpayButton.disabled = false\<close> exactly once: when the promise of
  \<^verbatim>\<open>show()\<close> settles by itself (success, cancellation by the user, unsupported method
  with the deep-link fallback, any other error), when the timer's abort succeeds
  (timeout), and when the capability probe is rejected. Over any sequence of tasks from
  the freshly loaded page, the button has been enabled again as often as there are settled
  attempts, and it is disabled exactly while the latest attempt is unsettled.
\<close>

theorem trigger_reenabled_once:
  "(pending presentation r s \<longrightarrow> reenabled_once s (step b s (now, ShowSettled r res))) \<and>
   (pending abortion r s \<and> pending presentation r s \<longrightarrow>
      reenabled_once s (step b s (now, AbortSettled r True))) \<and>
   (pending probe r s \<longrightarrow> reenabled_once s (step b s (now, ProbeSettled r (Inl e)))) \<and>
   count_list (writes (run b initial_page tasks)) (ButtonWrite False) =
     length (filter settled (attempts (run b initial_page tasks))) \<and>
   disabled (run b initial_page tasks) =
     (attempts (run b initial_page tasks) \<noteq> [] \<and>
      \<not> settled (last (attempts (run b initial_page tasks))))"
  using reenabled_as_often_as_settled [of b tasks]
  by (simp add: reenabled_once_ShowSettled reenabled_once_AbortSettled reenabled_once_ProbeSettled)

theorem trigger_reenabled_once_witness:
  "pending presentation 0 presenting \<and>
   reenabled_once presenting (step payment_browser presenting (5000, ShowSettled 0 (Inr ''paid''))) \<and>
   pending abortion 0 aborting \<and> pending presentation 0 aborting \<and>
   reenabled_once aborting (step payment_browser aborting (1201011, AbortSettled 0 True)) \<and>
   pending probe 0 probing \<and>
   reenabled_once probing
     (step payment_browser probing (1010, ProbeSettled 0 (Inl (JsError ''TypeError'' ''failed''))))"
  using pending_probing pending_presenting pending_aborting
    trigger_reenabled_once [of 0 presenting payment_browser 5000 "Inr ''paid''"]
    trigger_reenabled_once [of 0 aborting payment_browser 1201011]
    trigger_reenabled_once [of 0 probing payment_browser 1010 _ "JsError ''TypeError'' ''failed''"]
  by blast

subsection \<open>The timer against the presentation\<close>

lemma timer_armed_by_showPaymentUI:
  "r < length (attempts s) \<Longrightarrow>
   paymentTimeout (attempts (showPaymentUI r (Boolean True) now s) ! r) = Some (now + 1200000) \<and>
   pending presentation r (showPaymentUI r (Boolean True) now s)"
  by (simp add: showPaymentUI_def on_attempt_def pending_def timeout_delay_def)

lemma timer_not_before_due:
  "paymentTimeout (attempts s ! r) = Some (t0 + 1200000) \<Longrightarrow> now < t0 + 1200000 \<Longrightarrow>
   step b s (now, TimerFired r) = s"
  by (simp add: step_def timer_due_def)

lemma timer_invokes_abort:
  assumes "timer_due r now s"
  shows "pending abortion r (step b s (now, TimerFired r)) \<and>
         paymentTimeout (attempts (step b s (now, TimerFired r)) ! r) = None \<and>
         writes (step b s (now, TimerFired r)) = writes s \<and>
         disabled (step b s (now, TimerFired r)) = disabled s"
  using assms
  by (simp add: step_TimerFired timeout_callback_def clearTimeout_def on_attempt_def pending_def
      timer_due_def)

lemma abort_failure_changes_nothing_shown:
  assumes "pending abortion r s"
  shows "writes (step b s (now, AbortSettled r False)) = writes s \<and>
         textContent (step b s (now, AbortSettled r False)) = textContent s \<and>
         className (step b s (now, AbortSettled r False)) = className s \<and>
         disabled (step b s (now, AbortSettled r False)) = disabled s"
  using assms by (simp add: step_AbortSettled_False on_attempt_def)

lemma timer_cancelled_when_presentation_settles:
  assumes "pending presentation r s"
  shows "\<not> enabled t (TimerFired r) (step b s (now, ShowSettled r res))"
  using assms
  by (cases res)
    (simp_all add: step_ShowSettled_Inl step_ShowSettled_Inr timer_due_def script_defs Let_def)

text \<open>
  C2. The claim fails on the timeout path. In the scenario \<open>timed_out\<close> (click, probe
  true, the timer fires when due, the abort succeeds) the status is written by the timer's
  side (\<open>Payment timed out.\<close>) and then by the presentation's rejection handler
  (\<open>Payment was cancelled.\<close>): both sides write for the one attempt.
\<close>

theorem timer_and_presentation_both_write:
  "status_writes (new_writes presenting timed_out) =
     [(''Payment timed out.'', ''error''), (''Payment was cancelled.'', ''info'')]"
  by (simp add: timed_out_eq presenting_eq new_writes_def status_writes_def)

text \<open>
  C3. The claim fails in its middle part. After the timer has fired and the abort has
  succeeded, the status that stays is \<open>Payment was cancelled.\<close> with severity
  \<open>info\<close>, not \<open>Payment timed out.\<close> with severity \<open>error\<close>; the button is
  enabled again.
\<close>

theorem final_status_after_timeout:
  "timed_out = step payment_browser aborting (1201011, AbortSettled 0 True) \<and>
   textContent timed_out = ''Payment was cancelled.'' \<and> className timed_out = ''info'' \<and>
   textContent timed_out \<noteq> ''Payment timed out.'' \<and> \<not> disabled timed_out"
proof -
  have "timed_out = step payment_browser aborting (1201011, AbortSettled 0 True)"
    by (simp add: timed_out_def aborting_def run_def)
  moreover have "textContent timed_out = ''Payment was cancelled.'' \<and> className timed_out = ''info'' \<and>
      \<not> disabled timed_out"
    by (simp add: timed_out_eq)
  ultimately show ?thesis
    by simp
qed

text \<open>
  C4. When the abort of the timer succeeds, the rejection of the \<^verbatim>\<open>show()\<close> promise
  with an AbortError goes through the rejection handler: the task writes
  \<open>Payment timed out.\<close>, then \<open>Payment was cancelled.\<close> with severity \<open>info\<close>,
  then enables the button. The handler writes the same on any page, so it is the same
  write as after a cancellation by the user, where no timer has fired.
\<close>

theorem timeout_abort_written_as_cancellation:
  "(pending abortion r s \<and> pending presentation r s \<longrightarrow>
      new_writes s (step b s (now, AbortSettled r True)) =
        [StatusWrite ''Payment timed out.'' ''error'',
         StatusWrite ''Payment was cancelled.'' ''info'', ButtonWrite False] \<and>
      textContent (step b s (now, AbortSettled r True)) = ''Payment was cancelled.'' \<and>
      className (step b s (now, AbortSettled r True)) = ''info'') \<and>
   (pending presentation r s \<longrightarrow>
      new_writes s (step b s (now, ShowSettled r (Inl AbortError))) =
        [StatusWrite ''Payment was cancelled.'' ''info'', ButtonWrite False]) \<and>
   new_writes s' (call_catch (ShowCatch r) AbortError now s') =
     [StatusWrite ''Payment was cancelled.'' ''info'']"
  by (simp add: step_AbortSettled_True step_ShowSettled_Inl new_writes_def AbortError_def
      script_defs)

theorem timeout_abort_written_as_cancellation_witness:
  "pending abortion 0 aborting \<and> pending presentation 0 aborting \<and>
   new_writes aborting (step payment_browser aborting (1201011, AbortSettled 0 True)) =
     [StatusWrite ''Payment timed out.'' ''error'',
      StatusWrite ''Payment was cancelled.'' ''info'', ButtonWrite False] \<and>
   pending presentation 0 presenting \<and>
   new_writes presenting (step payment_browser presenting (5000, ShowSettled 0 (Inl AbortError))) =
     [StatusWrite ''Payment was cancelled.'' ''info'', ButtonWrite False]"
  using pending_aborting pending_presenting
    timeout_abort_written_as_cancellation [of 0 aborting payment_browser 1201011]
    timeout_abort_written_as_cancellation [of 0 presenting payment_browser 5000]
  by blast

text \<open>
  C5. A rejection of the \<^verbatim>\<open>show()\<close> promise is classified by the name of the error:
  \<open>NotSupportedError\<close> navigates to the deep link and writes no status,
  \<open>AbortError\<close> reports \<open>Payment was cancelled.\<close> with severity \<open>info\<close>, any other
  name reports \<open>Payment failed: \<close> followed by the message with severity \<open>error\<close>.
\<close>

theorem rejection_classified_by_name:
  "pending presentation r s \<Longrightarrow>
   new_writes s (step b s (now, ShowSettled r (Inl err))) =
     (if name err = ''NotSupportedError''
        then [Navigate (href (handleNotReadyToPay now s)), ButtonWrite False]
      else if name err = ''AbortError''
        then [StatusWrite ''Payment was cancelled.'' ''info'', ButtonWrite False]
      else [StatusWrite (''Payment failed: '' @ message err) ''error'', ButtonWrite False]) \<and>
   (textContent (step b s (now, ShowSettled r (Inl err))),
    className (step b s (now, ShowSettled r (Inl err)))) =
     (if name err = ''NotSupportedError'' then (textContent s, className s)
      else if name err = ''AbortError'' then (''Payment was cancelled.'', ''info'')
      else (''Payment failed: '' @ message err, ''error'')) \<and>
   href (step b s (now, ShowSettled r (Inl err))) =
     (if name err = ''NotSupportedError'' then href (handleNotReadyToPay now s) else href s)"
  by (simp add: step_ShowSettled_Inl new_writes_def script_defs Let_def)

theorem rejection_classified_by_name_witness:
  "pending presentation 0 presenting \<and>
   new_writes presenting
     (step payment_browser presenting (5000, ShowSettled 0 (Inl (JsError ''NotSupportedError'' ''no app'')))) =
     [Navigate ''gpay://upi/pay?pa=9110190178%40okbizaxis&pn=Ms.%20Priya%20Kumari&am=1.00&cu=INR&tr=TXN5000'',
      ButtonWrite False] \<and>
   textContent
     (step payment_browser presenting (5000, ShowSettled 0 (Inl (JsError ''NetworkError'' ''offline'')))) =
     ''Payment failed: offline''"
  using pending_presenting
    rejection_classified_by_name [of 0 presenting payment_browser 5000 "JsError ''NotSupportedError'' ''no app''"]
    rejection_classified_by_name [of 0 presenting payment_browser 5000 "JsError ''NetworkError'' ''offline''"]
    deep_link_uri_at_5000
  by simp

subsection \<open>Paths that present nothing\<close>

lemma probe_false_changes_probe_only:
  "pending probe r s \<Longrightarrow>
   step b s (now, ProbeSettled r (Inr False)) = on_attempt r (\<lambda>a. a\<lparr>probe := Resolved\<rparr>) s"
  by (simp add: step_ProbeSettled_Inr showPaymentUI_def)

text \<open>
  C6. When the capability probe resolves to false, nothing is written (no status, no
  button), no \<^verbatim>\<open>show()\<close> is requested and no timer is armed, and the button stays as
  it was; after the click that started the attempt it is disabled, and no further click
  reaches the script.
\<close>

theorem probe_false_ends_silently:
  "(pending probe r s \<longrightarrow>
      writes (step b s (now, ProbeSettled r (Inr False))) = writes s \<and>
      disabled (step b s (now, ProbeSettled r (Inr False))) = disabled s \<and>
      textContent (step b s (now, ProbeSettled r (Inr False))) = textContent s \<and>
      className (step b s (now, ProbeSettled r (Inr False))) = className s \<and>
      href (step b s (now, ProbeSettled r (Inr False))) = href s \<and>
      presentation (attempts (step b s (now, ProbeSettled r (Inr False))) ! r) =
        presentation (attempts s ! r) \<and>
      paymentTimeout (attempts (step b s (now, ProbeSettled r (Inr False))) ! r) =
        paymentTimeout (attempts s ! r)) \<and>
   (\<not> disabled s \<and> PaymentRequest_defined b \<and>
    construct b (supportedInstruments (generateTransactionReferenceID t0)) details = None \<longrightarrow>
      (let r0 = length (attempts s);
           s1 = step b s (t0, Click);
           s2 = step b s1 (now, ProbeSettled r0 (Inr False))
       in disabled s2 \<and> writes s2 = writes s1 \<and>
          presentation (attempts s2 ! r0) = Unrequested \<and>
          paymentTimeout (attempts s2 ! r0) = None \<and>
          step b s2 (t1, Click) = s2))"
proof -
  have "pending probe r s \<Longrightarrow> r < length (attempts s)"
    by (simp add: pending_def)
  then have first: "pending probe r s \<longrightarrow>
      writes (step b s (now, ProbeSettled r (Inr False))) = writes s \<and>
      disabled (step b s (now, ProbeSettled r (Inr False))) = disabled s \<and>
      textContent (step b s (now, ProbeSettled r (Inr False))) = textContent s \<and>
      className (step b s (now, ProbeSettled r (Inr False))) = className s \<and>
      href (step b s (now, ProbeSettled r (Inr False))) = href s \<and>
      presentation (attempts (step b s (now, ProbeSettled r (Inr False))) ! r) =
        presentation (attempts s ! r) \<and>
      paymentTimeout (attempts (step b s (now, ProbeSettled r (Inr False))) ! r) =
        paymentTimeout (attempts s ! r)"
    by (simp add: probe_false_changes_probe_only on_attempt_def)
  have second: "\<not> disabled s \<and> PaymentRequest_defined b \<and>
    construct b (supportedInstruments (generateTransactionReferenceID t0)) details = None \<longrightarrow>
      (let r0 = length (attempts s);
           s1 = step b s (t0, Click);
           s2 = step b s1 (now, ProbeSettled r0 (Inr False))
       in disabled s2 \<and> writes s2 = writes s1 \<and>
          presentation (attempts s2 ! r0) = Unrequested \<and>
          paymentTimeout (attempts s2 ! r0) = None \<and>
          step b s2 (t1, Click) = s2)"
  proof (intro impI)
    assume h: "\<not> disabled s \<and> PaymentRequest_defined b \<and>
      construct b (supportedInstruments (generateTransactionReferenceID t0)) details = None"
    define s1 where "s1 = step b s (t0, Click)"
    have s1: "s1 = on_attempt (length (attempts s)) (\<lambda>a. a\<lparr>probe := Pending\<rparr>)
        (showStatus ''Checking payment availability...'' ''info''
          (set_disabled True
            (s\<lparr>attempts := attempts s @
               [new_attempt (supportedInstruments (generateTransactionReferenceID t0)) details]\<rparr>)))"
      using h by (simp add: s1_def step_Click onBuyClicked_def Let_def)
    have p: "pending probe (length (attempts s)) s1"
      by (simp add: s1 pending_def on_attempt_def showStatus_def set_disabled_def)
    have d: "disabled s1 \<and> presentation (attempts s1 ! length (attempts s)) = Unrequested \<and>
        paymentTimeout (attempts s1 ! length (attempts s)) = None \<and>
        length (attempts s) < length (attempts s1)"
      by (simp add: s1 on_attempt_def showStatus_def set_disabled_def new_attempt_def)
    define s2 where "s2 = step b s1 (now, ProbeSettled (length (attempts s)) (Inr False))"
    have s2: "s2 = on_attempt (length (attempts s)) (\<lambda>a. a\<lparr>probe := Resolved\<rparr>) s1"
      using p by (simp add: s2_def probe_false_changes_probe_only)
    have "disabled s2 \<and> writes s2 = writes s1 \<and>
        presentation (attempts s2 ! length (attempts s)) = Unrequested \<and>
        paymentTimeout (attempts s2 ! length (attempts s)) = None"
      using d by (simp add: s2 on_attempt_def)
    moreover from this have "step b s2 (t1, Click) = s2"
      by (simp add: step_def)
    ultimately show "let r0 = length (attempts s);
           s1 = step b s (t0, Click);
           s2 = step b s1 (now, ProbeSettled r0 (Inr False))
       in disabled s2 \<and> writes s2 = writes s1 \<and>
          presentation (attempts s2 ! r0) = Unrequested \<and>
          paymentTimeout (attempts s2 ! r0) = None \<and>
          step b s2 (t1, Click) = s2"
      by (simp add: Let_def s1_def [symmetric] s2_def [symmetric])
  qed
  from first second show ?thesis
    by blast
qed

lemma payment_browser_accepts:
  "\<not> disabled initial_page \<and> PaymentRequest_defined payment_browser \<and>
   construct payment_browser (supportedInstruments (generateTransactionReferenceID 1000)) details = None"
  by (simp add: initial_page_def payment_browser_def)

theorem probe_false_ends_silently_witness:
  "pending probe 0 probing \<and>
   writes (step payment_browser probing (1010, ProbeSettled 0 (Inr False))) = writes probing \<and>
   \<not> disabled initial_page \<and> PaymentRequest_defined payment_browser \<and>
   construct payment_browser (supportedInstruments (generateTransactionReferenceID 1000)) details = None \<and>
   disabled (step payment_browser (step payment_browser initial_page (1000, Click))
               (1010, ProbeSettled 0 (Inr False)))"
  using pending_probing payment_browser_accepts
    probe_false_ends_silently [of 0 probing payment_browser 1010 1000 2000]
    probe_false_ends_silently [of 0 initial_page payment_browser 1010 1000 2000]
  by (simp add: Let_def initial_page_def)

text \<open>
  C7. When the constructor throws, the click reports \<open>Payment Request Error: \<close>
  followed by the message of the error with severity \<open>error\<close> and returns: the button
  is not written and stays enabled, no request exists, so no probe and no presentation
  is started.
\<close>

theorem construction_failure_fails_fast:
  "\<not> disabled s \<Longrightarrow> PaymentRequest_defined b \<Longrightarrow>
   construct b (supportedInstruments (generateTransactionReferenceID now)) details = Some e \<Longrightarrow>
   textContent (step b s (now, Click)) = ''Payment Request Error: '' @ message e \<and>
   className (step b s (now, Click)) = ''error'' \<and>
   new_writes s (step b s (now, Click)) =
     [StatusWrite (''Payment Request Error: '' @ message e) ''error''] \<and>
   \<not> disabled (step b s (now, Click)) \<and>
   attempts (step b s (now, Click)) = attempts s"
  by (simp add: step_Click onBuyClicked_def showStatus_def new_writes_def)

theorem construction_failure_fails_fast_witness:
  "\<not> disabled initial_page \<and> PaymentRequest_defined rejecting_browser \<and>
   construct rejecting_browser (supportedInstruments (generateTransactionReferenceID 1000)) details =
     Some (JsError ''TypeError'' ''invalid payment method data'') \<and>
   textContent (step rejecting_browser initial_page (1000, Click)) =
     ''Payment Request Error: invalid payment method data'' \<and>
   \<not> disabled (step rejecting_browser initial_page (1000, Click)) \<and>
   attempts (step rejecting_browser initial_page (1000, Click)) = []"
proof -
  have h: "\<not> disabled initial_page" "PaymentRequest_defined rejecting_browser"
    "construct rejecting_browser (supportedInstruments (generateTransactionReferenceID 1000)) details =
       Some (JsError ''TypeError'' ''invalid payment method data'')"
    by (simp_all add: initial_page_def rejecting_browser_def)
  show ?thesis
    using h construction_failure_fails_fast [OF h] by (simp add: initial_page_def)
qed

text \<open>
  C8. Without a \<^verbatim>\<open>PaymentRequest\<close> global, the click sets the status to
  \<open>Web payments are not supported in this browser.\<close> and returns; the constructor is
  not called (the outcome does not depend on it) and no request exists afterwards.
\<close>

theorem unsupported_browser_reports:
  "\<not> disabled s \<Longrightarrow> \<not> PaymentRequest_defined b \<Longrightarrow>
   textContent (step b s (now, Click)) = ''Web payments are not supported in this browser.'' \<and>
   className (step b s (now, Click)) = ''error'' \<and>
   new_writes s (step b s (now, Click)) =
     [StatusWrite ''Web payments are not supported in this browser.'' ''error''] \<and>
   attempts (step b s (now, Click)) = attempts s \<and>
   step (b\<lparr>construct := c\<rparr>) s (now, Click) = step b s (now, Click)"
  by (simp add: step_Click onBuyClicked_def showStatus_def new_writes_def)

theorem unsupported_browser_reports_witness:
  "\<not> disabled initial_page \<and> \<not> PaymentRequest_defined plain_browser \<and>
   textContent (step plain_browser initial_page (1000, Click)) =
     ''Web payments are not supported in this browser.'' \<and>
   attempts (step plain_browser initial_page (1000, Click)) = []"
proof -
  have h: "\<not> disabled initial_page" "\<not> PaymentRequest_defined plain_browser"
    by (simp_all add: initial_page_def plain_browser_def)
  show ?thesis
    using h unsupported_browser_reports [OF h] by (simp add: initial_page_def)
qed

end
